theory Spec2Isabelle
  imports Complex_Main "HOL-Library.Multiset" "HOL-Library.Log_Nat"
begin

section \<open>Carbon footprint analyzer: the sampling and estimation pipeline of naima.py\<close>

text \<open>
  In the estimator and the collector, Python floats are idealised as real numbers: there
  the arithmetic of the model is exact. In the summary, where the program rounds for
  display, the arithmetic is that of IEEE doubles, each operation rounded to the nearest
  double (\<open>fl\<close> below). Wall-clock readings of \<^verbatim>\<open>time.time()\<close> are reals (seconds); the
  readings of \<^verbatim>\<open>datetime.now()\<close>, which the program only uses at second precision,
  are integers (seconds counted from 0001-01-01T00:00:00 of the naive local calendar). The
  fixed width text \<^verbatim>\<open>YYYY-MM-DDTHH:MM:SS\<close> that the program stores orders as these
  counts do.
\<close>

subsection \<open>Constants\<close>

definition SAMPLE_INTERVAL_SECONDS :: real where
  "SAMPLE_INTERVAL_SECONDS = 2"

definition BATTERY_WH_CAPACITY :: real where
  "BATTERY_WH_CAPACITY = 50"

definition DEFAULT_BRIGHTNESS :: real where
  "DEFAULT_BRIGHTNESS = 60"

definition CPU_POWER_COEFF :: real where
  "CPU_POWER_COEFF = 25 / 100"

definition BRIGHTNESS_POWER_COEFF :: real where
  "BRIGHTNESS_POWER_COEFF = 8 / 100"

definition BASE_POWER_W :: real where
  "BASE_POWER_W = 8"

definition CO2_PER_KWH_KG :: real where
  "CO2_PER_KWH_KG = 7 / 10"

subsection \<open>Sensor readings\<close>

text \<open>
  The battery reading of \<^verbatim>\<open>psutil.sensors_battery()\<close>: \<^verbatim>\<open>None\<close> when the device
  has no battery, otherwise a tuple with the charge in percent and \<^verbatim>\<open>power_plugged\<close>,
  which psutil gives as True, False, or None when it cannot tell. The tuple itself is
  always truthy.
\<close>

record battery =
  percent :: real
  power_plugged :: "bool option"

text \<open>Python truthiness of the values the program tests.\<close>

definition truthy_bool :: "bool option \<Rightarrow> bool" where
  "truthy_bool b = (b = Some True)"

text \<open>\<^verbatim>\<open>x or 0\<close> on a number or None.\<close>

definition or_zero :: "real option \<Rightarrow> real" where
  "or_zero x = (case x of None \<Rightarrow> 0 | Some v \<Rightarrow> (if v \<noteq> 0 then v else 0))"

text \<open>
  \<^verbatim>\<open>get_brightness\<close>: the flag \<^verbatim>\<open>BRIGHTNESS_AVAILABLE\<close> and the reading of the
  brightness library, None when the call raises.
\<close>

definition get_brightness :: "bool \<Rightarrow> real option \<Rightarrow> real" where
  "get_brightness available vals =
     (if available then (case vals of Some v \<Rightarrow> v | None \<Rightarrow> DEFAULT_BRIGHTNESS)
      else DEFAULT_BRIGHTNESS)"

subsection \<open>Power estimation\<close>

text \<open>The local \<^verbatim>\<open>power_linear\<close> of \<^verbatim>\<open>estimate_power\<close>.\<close>

definition power_linear :: "real \<Rightarrow> real option \<Rightarrow> real" where
  "power_linear cpu_util brightness =
     BASE_POWER_W + CPU_POWER_COEFF * cpu_util + BRIGHTNESS_POWER_COEFF * or_zero brightness"

text \<open>
  The local \<^verbatim>\<open>battery_based_power\<close> of \<^verbatim>\<open>estimate_power\<close>, None unless every
  guard of the nested conditionals passes. \<open>now\<close> is the reading of \<^verbatim>\<open>time.time()\<close>
  taken at the start of the call.
\<close>

definition battery_based_power ::
  "battery option \<Rightarrow> real option \<Rightarrow> real option \<Rightarrow> real \<Rightarrow> real option" where
  "battery_based_power batt last_batt_percent last_ts now =
     (case batt of
        None \<Rightarrow> None
      | Some b \<Rightarrow>
          if truthy_bool (power_plugged b) then None
          else (case last_batt_percent of
                  None \<Rightarrow> None
                | Some lp \<Rightarrow>
                    (case last_ts of
                       None \<Rightarrow> None
                     | Some lt \<Rightarrow>
                         if percent b < lp then
                           (let dt_h = (now - lt) / 3600 in
                            if dt_h > 0 then
                              (let d_percent = lp - percent b;
                                   energy_used_Wh = BATTERY_WH_CAPACITY * (d_percent / 100)
                               in Some (energy_used_Wh / dt_h))
                            else None)
                         else None)))"

definition estimate_power ::
  "real \<Rightarrow> real option \<Rightarrow> battery option \<Rightarrow> real option \<Rightarrow> real option \<Rightarrow> real \<Rightarrow> real" where
  "estimate_power cpu_util brightness batt last_batt_percent last_ts now =
     (case battery_based_power batt last_batt_percent last_ts now of
        Some p \<Rightarrow> p
      | None \<Rightarrow> power_linear cpu_util brightness)"

subsection \<open>The samples table\<close>

text \<open>
  The seven columns the program reads and writes; every column but the timestamp is
  nullable. \<open>measurements\<close> are the six columns that a sample and a point of the data
  listing share.
\<close>

record measurements =
  cpu_util :: "real option"
  brightness :: "real option"
  battery_percent :: "real option"
  is_plugged :: "int option"
  power_W :: "real option"
  energy_Wh_cum :: "real option"

record sample = measurements +
  timestamp :: int

text \<open>A table is its rows, each with the row id of the primary key, in storage order.\<close>

type_synonym samples_table = "(nat \<times> sample) list"

text \<open>
  \<^verbatim>\<open>INSERT INTO samples\<close> on an AUTOINCREMENT key: the new row gets an id above every
  id of the table.
\<close>

definition insert_sample :: "samples_table \<Rightarrow> sample \<Rightarrow> samples_table" where
  "insert_sample tbl s = tbl @ [(Suc (fold max (map fst tbl) 0), s)]"

datatype error = DatabaseError | OverflowError

subsection \<open>The collector\<close>

text \<open>
  What one pass of the loop of \<^verbatim>\<open>collector_thread\<close> reads from its environment, in
  the order of the reads: the clock at the start, the calendar clock for the row's
  timestamp, the processor load, the battery, the brightness library, the clock inside
  \<^verbatim>\<open>estimate_power\<close>, the clock \<^verbatim>\<open>now_ts\<close>, whether the INSERT and its commit go
  through, and the clock before the sleep.
\<close>

record iteration =
  t_start :: real
  now_dt :: int
  cpu_percent :: real
  sensors_battery :: "battery option"
  sbc_vals :: "real option"
  t_estimate :: real
  t_now :: real
  write_ok :: bool
  t_end :: real

record collector_state =
  last_ts :: "real option"
  last_batt_percent :: "real option"
  energy_cum_Wh :: real

definition sleep_seconds :: "iteration \<Rightarrow> real" where
  "sleep_seconds it = max 0 (SAMPLE_INTERVAL_SECONDS - (t_end it - t_start it))"

text \<open>The locals \<^verbatim>\<open>batt_percent\<close> and \<^verbatim>\<open>is_plugged\<close> of a pass.\<close>

definition batt_percent_of :: "battery option \<Rightarrow> real option" where
  "batt_percent_of batt = (case batt of None \<Rightarrow> None | Some b \<Rightarrow> Some (percent b))"

definition is_plugged_of :: "battery option \<Rightarrow> int" where
  "is_plugged_of batt =
     (if (case batt of None \<Rightarrow> False | Some b \<Rightarrow> truthy_bool (power_plugged b)) then 1 else 0)"

text \<open>
  The update of \<^verbatim>\<open>energy_cum_Wh\<close> in a pass, under the test
  \<^verbatim>\<open>if last_ts and power_W\<close>: both are numbers when present, truthy when not zero.
\<close>

definition integrate_energy :: "collector_state \<Rightarrow> real \<Rightarrow> real \<Rightarrow> real" where
  "integrate_energy st p_W now_ts =
     (case last_ts st of
        None \<Rightarrow> energy_cum_Wh st
      | Some lt \<Rightarrow>
          if lt \<noteq> 0 \<and> p_W \<noteq> 0
          then (let dt_h = (now_ts - lt) / 3600 in energy_cum_Wh st + p_W * dt_h)
          else energy_cum_Wh st)"

text \<open>
  One pass: the readings, the estimate, the energy, the write of the row, then the update
  of the state. The program has no handler around the write, so a failing write raises out
  of the pass and nothing is stored.
\<close>

definition collector_iteration ::
  "bool \<Rightarrow> iteration \<Rightarrow> collector_state \<Rightarrow> samples_table
     \<Rightarrow> error + (collector_state \<times> samples_table)" where
  "collector_iteration available it st tbl =
     (let batt = sensors_battery it;
          batt_percent = batt_percent_of batt;
          plugged = is_plugged_of batt;
          bright = get_brightness available (sbc_vals it);
          p_W = estimate_power (cpu_percent it) (Some bright) batt
                  (last_batt_percent st) (last_ts st) (t_estimate it);
          energy = integrate_energy st p_W (t_now it);
          row = \<lparr>cpu_util = Some (cpu_percent it), brightness = Some bright,
                 battery_percent = batt_percent, is_plugged = Some plugged,
                 power_W = Some p_W, energy_Wh_cum = Some energy, timestamp = now_dt it\<rparr>
      in if \<not> write_ok it then Inl DatabaseError
         else Inr (\<lparr>last_ts = Some (t_now it), last_batt_percent = batt_percent,
                    energy_cum_Wh = energy\<rparr>,
                   insert_sample tbl row))"

text \<open>
  The loop never ends by itself. It is run here on the finite list of the environments of
  its first passes: \<open>Running st\<close> says that the loop is still going after them, in state
  \<open>st\<close>; \<open>Crashed e\<close> says that the exception \<open>e\<close> ended the thread.
\<close>

datatype outcome = Running collector_state | Crashed error

fun collector_loop ::
  "bool \<Rightarrow> iteration list \<Rightarrow> collector_state \<Rightarrow> samples_table \<Rightarrow> outcome \<times> samples_table" where
  "collector_loop available [] st tbl = (Running st, tbl)"
| "collector_loop available (it # its) st tbl =
     (case collector_iteration available it st tbl of
        Inl e \<Rightarrow> (Crashed e, tbl)
      | Inr (st', tbl') \<Rightarrow> collector_loop available its st' tbl')"

definition collector_thread ::
  "bool \<Rightarrow> iteration list \<Rightarrow> samples_table \<Rightarrow> outcome \<times> samples_table" where
  "collector_thread available its tbl =
     collector_loop available its
       \<lparr>last_ts = None, last_batt_percent = None, energy_cum_Wh = 0\<rparr> tbl"

subsection \<open>Fetching samples\<close>

text \<open>
  The range checks of the calendar library: \<^verbatim>\<open>timedelta(minutes=m)\<close> raises
  OverflowError unless its days stay within 999999999 in magnitude, and a subtraction that
  leaves the years 1 to 9999 raises OverflowError too.
\<close>

definition timedelta_ok :: "int \<Rightarrow> bool" where
  "timedelta_ok minutes =
     (- 999999999 \<le> (minutes * 60) div 86400 \<and> (minutes * 60) div 86400 \<le> 999999999)"

definition datetime_ok :: "int \<Rightarrow> bool" where
  "datetime_ok secs = (0 \<le> secs \<and> secs < 315537897600)"

text \<open>
  \<^verbatim>\<open>fetch_samples\<close> on the live table, the sim table and the calendar clock. SQLite
  leaves the order of rows with equal sort keys open; the model takes the stable one.
\<close>

definition fetch_samples ::
  "samples_table \<Rightarrow> samples_table \<Rightarrow> int \<Rightarrow> string \<Rightarrow> int \<Rightarrow> error + sample list" where
  "fetch_samples live sim now mode minutes =
     (if mode = ''live'' then
        (if \<not> timedelta_ok minutes then Inl OverflowError
         else (let since = now - minutes * 60 in
               if \<not> datetime_ok since then Inl OverflowError
               else Inr (sort_key timestamp
                          (map snd (filter (\<lambda>r. since \<le> timestamp (snd r)) live)))))
      else Inr (map snd (sort_key fst sim)))"

subsection \<open>The data listing\<close>

text \<open>
  The request parameters after parsing: \<^verbatim>\<open>mode\<close> is None when absent, and
  \<^verbatim>\<open>minutes\<close> is None when absent or not an integer; the defaults are "sim" and 60.
\<close>

definition request_mode :: "string option \<Rightarrow> string" where
  "request_mode m = (case m of None \<Rightarrow> ''sim'' | Some v \<Rightarrow> v)"

definition request_minutes :: "int option \<Rightarrow> int" where
  "request_minutes m = (case m of None \<Rightarrow> 60 | Some v \<Rightarrow> v)"

record data_point = measurements +
  index :: nat

definition data_rows :: "sample list \<Rightarrow> data_point list" where
  "data_rows rows =
     map (\<lambda>(idx, r). \<lparr>cpu_util = cpu_util r, brightness = brightness r,
                       battery_percent = battery_percent r, is_plugged = is_plugged r,
                       power_W = power_W r, energy_Wh_cum = energy_Wh_cum r,
                       index = idx + 1\<rparr>)
         (enumerate 0 rows)"

definition api_data ::
  "samples_table \<Rightarrow> samples_table \<Rightarrow> int \<Rightarrow> string option \<Rightarrow> int option
     \<Rightarrow> error + data_point list" where
  "api_data live sim now mode minutes =
     (case fetch_samples live sim now (request_mode mode) (request_minutes minutes) of
        Inl e \<Rightarrow> Inl e
      | Inr rows \<Rightarrow> Inr (data_rows rows))"

subsection \<open>Double arithmetic\<close>

text \<open>The integer nearest to a real, a tie going to the even one.\<close>

definition round_half_even :: "real \<Rightarrow> int" where
  "round_half_even x =
     (let f = \<lfloor>x\<rfloor>; d = x - of_int f in
      if d < 1 / 2 then f else if 1 / 2 < d then f + 1 else if even f then f else f + 1)"

text \<open>
  For \<open>0 < x\<close>, the exponent \<open>e\<close> with \<open>2 ^ e \<le> x < 2 ^ (e + 1)\<close>, from the bit length of
  an integer.
\<close>

definition exponent2 :: "real \<Rightarrow> int" where
  "exponent2 x = (if 1 \<le> x then bitlen \<lfloor>x\<rfloor> - 1 else - bitlen (\<lceil>1 / x\<rceil> - 1))"

definition pow2 :: "int \<Rightarrow> real" where
  "pow2 e = (if 0 \<le> e then 2 ^ nat e else 1 / 2 ^ nat (- e))"

text \<open>
  The double nearest to a real, a tie going to the even significand: 53 significant bits,
  and the fixed spacing \<open>2 ^ (- 1074)\<close> of the subnormal numbers below \<open>2 ^ (- 1022)\<close>.
  The upper end of the exponent range is not modelled: a result of magnitude
  \<open>2 ^ 1024\<close> or more, which the program would carry as an infinity, is not one that
  energies and loads of a device reach.
\<close>

definition fl :: "real \<Rightarrow> real" where
  "fl x =
     (if x = 0 then 0
      else (let e = max (exponent2 \<bar>x\<bar>) (- 1022);
                q = pow2 (e - 52)
            in of_int (round_half_even (x / q)) * q))"

text \<open>
  Python's \<^verbatim>\<open>round(x, ndigits)\<close> on a double: the exact value of \<open>x\<close> is rounded to
  the nearest decimal with \<open>ndigits\<close> digits after the point, a tie going to the even
  digit, and the result is the double nearest to that decimal.
\<close>

definition round_py :: "real \<Rightarrow> nat \<Rightarrow> real" where
  "round_py x ndigits = fl (of_int (round_half_even (x * 10 ^ ndigits)) / 10 ^ ndigits)"

text \<open>
  \<^verbatim>\<open>r[k] or 0\<close> on a REAL column: a null counts as 0, and what is read is a double,
  the one nearest to the value of the model.
\<close>

definition read_or_zero :: "real option \<Rightarrow> real" where
  "read_or_zero x = (case x of None \<Rightarrow> 0 | Some v \<Rightarrow> fl v)"

text \<open>
  Python's \<^verbatim>\<open>sum\<close> over doubles as interpreters up to version 3.11 compute it, a
  running sum from the left. From version 3.12 on the interpreter compensates the rounding
  errors of the running sum, so the summary below takes the summation as a parameter.
\<close>

definition sum_running :: "real list \<Rightarrow> real" where
  "sum_running xs = foldl (\<lambda>a b. fl (a + b)) 0 xs"

subsection \<open>The summary\<close>

record summary =
  energy_Wh :: real
  avg_power_W :: real
  avg_cpu :: real
  co2_kg :: real

text \<open>
  The locals \<^verbatim>\<open>energy_Wh\<close>, \<^verbatim>\<open>avg_power\<close>, \<^verbatim>\<open>avg_cpu\<close> and \<^verbatim>\<open>co2\<close> of
  \<^verbatim>\<open>api_summary\<close>, before the rounding for display, on a window that is not empty.
\<close>

definition summary_energy_Wh :: "sample list \<Rightarrow> real" where
  "summary_energy_Wh rows =
     (let energies = map (\<lambda>r. read_or_zero (energy_Wh_cum r)) rows in
      if 1 < length energies then fl (last energies - hd energies) else last energies)"

definition summary_avg_power :: "(real list \<Rightarrow> real) \<Rightarrow> sample list \<Rightarrow> real" where
  "summary_avg_power py_sum rows =
     (let powers = map (\<lambda>r. read_or_zero (power_W r)) rows in
      fl (py_sum powers / real (length powers)))"

definition summary_avg_cpu :: "(real list \<Rightarrow> real) \<Rightarrow> sample list \<Rightarrow> real" where
  "summary_avg_cpu py_sum rows =
     (let cpus = map (\<lambda>r. read_or_zero (cpu_util r)) rows in
      fl (py_sum cpus / real (length cpus)))"

definition summary_co2 :: "sample list \<Rightarrow> real" where
  "summary_co2 rows =
     (let energy_kWh = fl (summary_energy_Wh rows / 1000) in
      fl (energy_kWh * fl CO2_PER_KWH_KG))"

text \<open>The body of \<^verbatim>\<open>api_summary\<close> below the fetch, on the rows fetched.\<close>

definition summary_rows :: "(real list \<Rightarrow> real) \<Rightarrow> sample list \<Rightarrow> summary" where
  "summary_rows py_sum rows =
     (if rows = [] then \<lparr>energy_Wh = 0, avg_power_W = 0, avg_cpu = 0, co2_kg = 0\<rparr>
      else \<lparr>energy_Wh = round_py (summary_energy_Wh rows) 2,
            avg_power_W = round_py (summary_avg_power py_sum rows) 2,
            avg_cpu = round_py (summary_avg_cpu py_sum rows) 1,
            co2_kg = round_py (summary_co2 rows) 3\<rparr>)"

definition api_summary ::
  "(real list \<Rightarrow> real) \<Rightarrow> samples_table \<Rightarrow> samples_table \<Rightarrow> int \<Rightarrow> string option \<Rightarrow> int option
     \<Rightarrow> error + summary" where
  "api_summary py_sum live sim now mode minutes =
     (case fetch_samples live sim now (request_mode mode) (request_minutes minutes) of
        Inl e \<Rightarrow> Inl e
      | Inr rows \<Rightarrow> Inr (summary_rows py_sum rows))"

subsection \<open>Example inputs\<close>

text \<open>
  A pass on a device without battery, with an idle processor and no brightness library,
  in which every clock reads \<open>t\<close>.
\<close>

definition quiet_pass :: "real \<Rightarrow> iteration" where
  "quiet_pass t =
     \<lparr>t_start = t, now_dt = \<lfloor>t\<rfloor>, cpu_percent = 0, sensors_battery = None, sbc_vals = None,
      t_estimate = t, t_now = t, write_ok = True, t_end = t\<rparr>"

text \<open>A stored row of which only the timestamp is set.\<close>

definition sample_at :: "int \<Rightarrow> sample" where
  "sample_at t =
     \<lparr>cpu_util = None, brightness = None, battery_percent = None, is_plugged = None,
      power_W = None, energy_Wh_cum = None, timestamp = t\<rparr>"

section \<open>Properties\<close>

lemmas constant_defs =
  BATTERY_WH_CAPACITY_def CPU_POWER_COEFF_def BRIGHTNESS_POWER_COEFF_def
  BASE_POWER_W_def CO2_PER_KWH_KG_def DEFAULT_BRIGHTNESS_def

lemmas step_defs =
  collector_thread_def collector_iteration_def Let_def insert_sample_def
  estimate_power_def battery_based_power_def power_linear_def integrate_energy_def
  batt_percent_of_def is_plugged_of_def get_brightness_def or_zero_def quiet_pass_def
  constant_defs

subsection \<open>The estimator\<close>

lemma power_linear_ge_base:
  "0 \<le> c \<Longrightarrow> 0 \<le> or_zero br \<Longrightarrow> BASE_POWER_W \<le> power_linear c br"
  by (simp add: power_linear_def constant_defs)

lemma battery_based_power_pos:
  assumes "battery_based_power batt lp lt now = Some x"
  shows "0 < x"
  using assms
  by (auto simp: battery_based_power_def Let_def BATTERY_WH_CAPACITY_def
           split: option.splits if_splits)

lemma estimate_power_pos:
  assumes "0 \<le> c" and "0 \<le> or_zero br"
  shows "0 < estimate_power c br batt lp lt now"
proof (cases "battery_based_power batt lp lt now")
  case None
  have "0 < BASE_POWER_W" by (simp add: BASE_POWER_W_def)
  also have "\<dots> \<le> power_linear c br" using assms by (rule power_linear_ge_base)
  finally show ?thesis using None by (simp add: estimate_power_def)
next
  case (Some x)
  then show ?thesis using battery_based_power_pos [OF Some] by (simp add: estimate_power_def)
qed

text \<open>
  Claim C3. With a processor load and a brightness that are not negative, the estimate of
  the linear model, \<open>BASE_POWER_W + CPU_POWER_COEFF * cpu_util + BRIGHTNESS_POWER_COEFF *
  brightness\<close>, is at least \<open>BASE_POWER_W\<close>, which is 8 W. A missing brightness counts as 0
  and keeps the bound.
\<close>

theorem linear_power_at_least_base:
  assumes "0 \<le> c" and "0 \<le> v"
  shows "power_linear c (Some v) = BASE_POWER_W + CPU_POWER_COEFF * c + BRIGHTNESS_POWER_COEFF * v
       \<and> BASE_POWER_W \<le> power_linear c (Some v)
       \<and> BASE_POWER_W \<le> power_linear c None
       \<and> BASE_POWER_W = 8"
  using assms by (simp add: power_linear_def or_zero_def constant_defs)

text \<open>The example of the specification: load 40, brightness 60, that is 22.8 W.\<close>

theorem linear_power_at_least_base_witness:
  "power_linear 40 (Some 60) = 228 / 10 \<and> BASE_POWER_W \<le> power_linear 40 (Some 60)"
  using linear_power_at_least_base [of 40 60] by (simp add: constant_defs)

text \<open>
  Claim C1. \<^verbatim>\<open>estimate_power\<close> returns the estimate from the battery discharge exactly
  when a battery is there, it is not plugged in (\<^verbatim>\<open>not batt.power_plugged\<close>, which
  also holds when psutil cannot tell), a previous percentage and a previous time exist, the
  percentage now is strictly below the previous one, and the hours elapsed
  \<open>(now - t) / 3600\<close> are strictly positive. In every other case it returns the estimate of
  the linear model.
\<close>

theorem estimate_power_model_choice:
  "(if \<exists>b p t. batt = Some b \<and> power_plugged b \<noteq> Some True \<and> lp = Some p \<and> lt = Some t
               \<and> percent b < p \<and> 0 < (now - t) / 3600
    then \<exists>b p t. batt = Some b \<and> lp = Some p \<and> lt = Some t
               \<and> battery_based_power batt lp lt now
                    = Some (BATTERY_WH_CAPACITY * ((p - percent b) / 100) / ((now - t) / 3600))
               \<and> estimate_power c br batt lp lt now
                    = BATTERY_WH_CAPACITY * ((p - percent b) / 100) / ((now - t) / 3600)
    else battery_based_power batt lp lt now = None
       \<and> estimate_power c br batt lp lt now = power_linear c br)"
  by (auto simp: estimate_power_def battery_based_power_def truthy_bool_def Let_def
           split: option.splits)

text \<open>
  Both branches on the examples of the specification: a battery that goes from 80 to 78
  percent in 360 seconds gives 10 W; without a battery the linear model gives 22.8 W.
\<close>

theorem estimate_power_model_choice_witness:
  "estimate_power 40 (Some 60) (Some \<lparr>percent = 78, power_plugged = Some False\<rparr>)
     (Some 80) (Some 1000) 1360 = 10
   \<and> estimate_power 40 (Some 60) None (Some 80) (Some 1000) 1360 = 228 / 10"
  using
    estimate_power_model_choice [of "Some \<lparr>percent = 78, power_plugged = Some False\<rparr>"
      "Some 80" "Some 1000" 1360 40 "Some 60"]
    estimate_power_model_choice [of None "Some 80" "Some 1000" 1360 40 "Some 60"]
  by (simp add: power_linear_def or_zero_def constant_defs)

subsection \<open>The collector loop\<close>

lemma integrate_energy_mono:
  assumes "0 \<le> p" and "\<And>t. last_ts st = Some t \<Longrightarrow> t \<le> now_ts"
  shows "energy_cum_Wh st \<le> integrate_energy st p now_ts"
proof (cases "last_ts st")
  case None
  then show ?thesis by (simp add: integrate_energy_def)
next
  case (Some t)
  then have "0 \<le> p * ((now_ts - t) / 3600)" using assms by simp
  then show ?thesis using Some by (simp add: integrate_energy_def Let_def)
qed

lemma collector_iteration_Inr:
  assumes "collector_iteration available it st tbl = Inr (st', tbl')"
  shows "write_ok it" 
    and "last_ts st' = Some (t_now it)"
    and "\<exists>i s. tbl' = tbl @ [(i, s)] \<and> energy_Wh_cum s = Some (energy_cum_Wh st')"
    and "energy_cum_Wh st' = integrate_energy st
           (estimate_power (cpu_percent it) (Some (get_brightness available (sbc_vals it)))
              (sensors_battery it) (last_batt_percent st) (last_ts st) (t_estimate it))
           (t_now it)"
  using assms
  by (auto simp: collector_iteration_def Let_def insert_sample_def split: if_splits)

lemma collector_iteration_Inl:
  "collector_iteration available it st tbl = Inl e \<Longrightarrow> \<not> write_ok it \<and> e = DatabaseError"
  by (auto simp: collector_iteration_def Let_def split: if_splits)

lemma collector_iteration_fails:
  "\<not> write_ok it \<Longrightarrow> collector_iteration available it st tbl = Inl DatabaseError"
  by (simp add: collector_iteration_def Let_def)

lemma collector_iteration_ok:
  "write_ok it \<Longrightarrow> \<exists>st' tbl'. collector_iteration available it st tbl = Inr (st', tbl')"
  by (simp add: collector_iteration_def Let_def)

lemma or_zero_Some_nonneg: "0 \<le> v \<Longrightarrow> 0 \<le> or_zero (Some v)"
  by (simp add: or_zero_def)

lemma collector_loop_pairs:
  "\<exists>rows es. snd (collector_loop available its st tbl) = tbl @ rows
     \<and> map (energy_Wh_cum \<circ> snd) rows = map Some es
     \<and> length es = length (takeWhile write_ok its)
     \<and> (es \<noteq> [] \<and> 0 \<le> cpu_percent (hd its)
          \<and> 0 \<le> get_brightness available (sbc_vals (hd its))
          \<and> (\<forall>t. last_ts st = Some t \<longrightarrow> t \<le> t_now (hd its))
        \<longrightarrow> energy_cum_Wh st \<le> hd es)
     \<and> (\<forall>i. Suc i < length es \<and> 0 \<le> cpu_percent (its ! Suc i)
              \<and> 0 \<le> get_brightness available (sbc_vals (its ! Suc i))
              \<and> t_now (its ! i) \<le> t_now (its ! Suc i)
          \<longrightarrow> es ! i \<le> es ! Suc i)"
proof (induction its arbitrary: st tbl)
  case Nil
  then show ?case by simp
next
  case (Cons it its)
  show ?case
  proof (cases "write_ok it")
    case False
    then show ?thesis by (simp add: collector_iteration_fails)
  next
    case True
    then obtain st' tbl' where step: "collector_iteration available it st tbl = Inr (st', tbl')"
      using collector_iteration_ok by blast
    from collector_iteration_Inr(3) [OF step] obtain i s
      where tbl': "tbl' = tbl @ [(i, s)]" and s: "energy_Wh_cum s = Some (energy_cum_Wh st')"
      by blast
    have ts: "last_ts st' = Some (t_now it)" by (rule collector_iteration_Inr(2) [OF step])
    from Cons.IH [of st' tbl'] obtain rows es
      where r: "snd (collector_loop available its st' tbl') = tbl' @ rows"
        and e: "map (energy_Wh_cum \<circ> snd) rows = map Some es"
        and l: "length es = length (takeWhile write_ok its)"
        and h: "es \<noteq> [] \<and> 0 \<le> cpu_percent (hd its)
                  \<and> 0 \<le> get_brightness available (sbc_vals (hd its))
                  \<and> (\<forall>t. last_ts st' = Some t \<longrightarrow> t \<le> t_now (hd its))
                \<longrightarrow> energy_cum_Wh st' \<le> hd es"
        and p: "\<forall>i. Suc i < length es \<and> 0 \<le> cpu_percent (its ! Suc i)
                  \<and> 0 \<le> get_brightness available (sbc_vals (its ! Suc i))
                  \<and> t_now (its ! i) \<le> t_now (its ! Suc i)
                \<longrightarrow> es ! i \<le> es ! Suc i"
      by blast
    let ?rows = "(i, s) # rows" and ?es = "energy_cum_Wh st' # es"
    have its: "its \<noteq> []" if "es \<noteq> []" using that l by auto
    have 1: "snd (collector_loop available (it # its) st tbl) = tbl @ ?rows"
      using step r tbl' by simp
    have 2: "map (energy_Wh_cum \<circ> snd) ?rows = map Some ?es" using e s by simp
    have 3: "length ?es = length (takeWhile write_ok (it # its))" using l True by simp
    have 4: "energy_cum_Wh st \<le> hd ?es"
      if "0 \<le> cpu_percent it" "0 \<le> get_brightness available (sbc_vals it)"
        "\<forall>t. last_ts st = Some t \<longrightarrow> t \<le> t_now it"
    proof -
      have "0 \<le> estimate_power (cpu_percent it) (Some (get_brightness available (sbc_vals it)))
              (sensors_battery it) (last_batt_percent st) (last_ts st) (t_estimate it)"
      proof (rule less_imp_le, rule estimate_power_pos)
        show "0 \<le> cpu_percent it" by (rule that(1))
        show "0 \<le> or_zero (Some (get_brightness available (sbc_vals it)))"
          using that(2) by (simp add: or_zero_def)
      qed
      then have "energy_cum_Wh st \<le> energy_cum_Wh st'"
        unfolding collector_iteration_Inr(4) [OF step]
        using that(3) by (intro integrate_energy_mono) simp_all
      then show ?thesis by simp
    qed
    have 5: "?es ! j \<le> ?es ! Suc j"
      if "Suc j < length ?es" "0 \<le> cpu_percent ((it # its) ! Suc j)"
        "0 \<le> get_brightness available (sbc_vals ((it # its) ! Suc j))"
        "t_now ((it # its) ! j) \<le> t_now ((it # its) ! Suc j)" for j
    proof (cases j)
      case 0
      with that have ne: "es \<noteq> []" by auto
      with its have "its \<noteq> []" by simp
      then have hd: "hd its = its ! 0" by (simp add: hd_conv_nth)
      have "energy_cum_Wh st' \<le> hd es"
        using h ne that ts 0 by (simp add: hd)
      then show ?thesis using 0 ne by (simp add: hd_conv_nth)
    next
      case (Suc k)
      then show ?thesis using p that by simp
    qed
    have h4: "?es \<noteq> [] \<and> 0 \<le> cpu_percent (hd (it # its))
          \<and> 0 \<le> get_brightness available (sbc_vals (hd (it # its)))
          \<and> (\<forall>t. last_ts st = Some t \<longrightarrow> t \<le> t_now (hd (it # its)))
        \<longrightarrow> energy_cum_Wh st \<le> hd ?es"
      using 4 by simp
    have h5: "\<forall>j. Suc j < length ?es \<and> 0 \<le> cpu_percent ((it # its) ! Suc j)
              \<and> 0 \<le> get_brightness available (sbc_vals ((it # its) ! Suc j))
              \<and> t_now ((it # its) ! j) \<le> t_now ((it # its) ! Suc j)
          \<longrightarrow> ?es ! j \<le> ?es ! Suc j"
      using 5 by blast
    show ?thesis
      by (rule exI [of _ ?rows], rule exI [of _ ?es]) (intro conjI 1 2 3 h4 h5)
  qed
qed

text \<open>
  Claim C2, as amended. Within one run of the collector, for every pair of consecutive
  passes: when the readings of the processor load and of the brightness of the later pass
  are not negative and its clock reading \<^verbatim>\<open>now_ts\<close> is not earlier than that of the
  pass before, the cumulative energy it writes is at least the one written by the pass
  before. Nothing is asked of the other passes of the run, and the same holds for the loop
  continued from any state. The run appends one row per pass up to the first failing write,
  and every such row carries its cumulative energy.
\<close>

theorem collector_energy_nondecreasing:
  "(\<exists>rows es. snd (collector_thread available its tbl) = tbl @ rows
       \<and> map (energy_Wh_cum \<circ> snd) rows = map Some es
       \<and> length es = length (takeWhile write_ok its)
       \<and> (\<forall>i. Suc i < length es \<and> 0 \<le> cpu_percent (its ! Suc i)
                \<and> 0 \<le> get_brightness available (sbc_vals (its ! Suc i))
                \<and> t_now (its ! i) \<le> t_now (its ! Suc i)
            \<longrightarrow> es ! i \<le> es ! Suc i))
   \<and> (\<exists>rows es. snd (collector_loop available its st tbl) = tbl @ rows
       \<and> map (energy_Wh_cum \<circ> snd) rows = map Some es
       \<and> length es = length (takeWhile write_ok its)
       \<and> (\<forall>i. Suc i < length es \<and> 0 \<le> cpu_percent (its ! Suc i)
                \<and> 0 \<le> get_brightness available (sbc_vals (its ! Suc i))
                \<and> t_now (its ! i) \<le> t_now (its ! Suc i)
            \<longrightarrow> es ! i \<le> es ! Suc i))"
proof
  show "\<exists>rows es. snd (collector_thread available its tbl) = tbl @ rows
       \<and> map (energy_Wh_cum \<circ> snd) rows = map Some es
       \<and> length es = length (takeWhile write_ok its)
       \<and> (\<forall>i. Suc i < length es \<and> 0 \<le> cpu_percent (its ! Suc i)
                \<and> 0 \<le> get_brightness available (sbc_vals (its ! Suc i))
                \<and> t_now (its ! i) \<le> t_now (its ! Suc i)
            \<longrightarrow> es ! i \<le> es ! Suc i)"
    using collector_loop_pairs [of available its
        "\<lparr>last_ts = None, last_batt_percent = None, energy_cum_Wh = 0\<rparr>" tbl]
    unfolding collector_thread_def by blast
  show "\<exists>rows es. snd (collector_loop available its st tbl) = tbl @ rows
       \<and> map (energy_Wh_cum \<circ> snd) rows = map Some es
       \<and> length es = length (takeWhile write_ok its)
       \<and> (\<forall>i. Suc i < length es \<and> 0 \<le> cpu_percent (its ! Suc i)
                \<and> 0 \<le> get_brightness available (sbc_vals (its ! Suc i))
                \<and> t_now (its ! i) \<le> t_now (its ! Suc i)
            \<longrightarrow> es ! i \<le> es ! Suc i)"
    using collector_loop_pairs [of available its st tbl] by blast
qed

text \<open>
  A run whose clock is set back by an hour at the second pass and forward again at the
  third: the energies are 0, -12.8 and 0, and the pair of the second and third pass meets
  the conditions.
\<close>

theorem collector_energy_nondecreasing_witness:
  "map (energy_Wh_cum \<circ> snd)
     (snd (collector_thread False [quiet_pass 7200, quiet_pass 3600, quiet_pass 7200] []))
     = [Some 0, Some (- (64 / 5)), Some 0]
   \<and> t_now (quiet_pass 3600) \<le> t_now (quiet_pass 7200)
   \<and> 0 \<le> cpu_percent (quiet_pass 7200)
   \<and> 0 \<le> get_brightness False (sbc_vals (quiet_pass 7200))"
  using collector_energy_nondecreasing
    [of False "[quiet_pass 7200, quiet_pass 3600, quiet_pass 7200]" "[]"]
  by (simp add: step_defs)

text \<open>
  Claim C2 as stated fails: \<^verbatim>\<open>time.time()\<close> is the wall clock, which can be set
  back between two passes. With readings that are not negative and the clock one hour
  earlier at the second pass, the second row carries a smaller cumulative energy.
\<close>

theorem collector_energy_clock_set_back:
  "0 \<le> cpu_percent (quiet_pass 7200) \<and> 0 \<le> get_brightness False (sbc_vals (quiet_pass 7200))
   \<and> 0 \<le> cpu_percent (quiet_pass 3600) \<and> 0 \<le> get_brightness False (sbc_vals (quiet_pass 3600))
   \<and> map (energy_Wh_cum \<circ> snd)
       (snd (collector_thread False [quiet_pass 7200, quiet_pass 3600] []))
     = [Some 0, Some (- (64 / 5))]"
  by (simp add: step_defs)

lemma collector_loop_rows:
  "\<exists>rows. snd (collector_loop available its st tbl) = tbl @ rows
      \<and> length rows = length (takeWhile write_ok its)"
proof (induction its arbitrary: st tbl)
  case Nil
  then show ?case by simp
next
  case (Cons it its)
  show ?case
  proof (cases "write_ok it")
    case False
    then show ?thesis by (simp add: collector_iteration_fails)
  next
    case True
    then obtain st' tbl' where step: "collector_iteration available it st tbl = Inr (st', tbl')"
      using collector_iteration_ok by blast
    from collector_iteration_Inr(3) [OF step] obtain i s where tbl': "tbl' = tbl @ [(i, s)]"
      by blast
    from Cons.IH [of st' tbl'] obtain rows
      where "snd (collector_loop available its st' tbl') = tbl' @ rows"
        and "length rows = length (takeWhile write_ok its)" by blast
    then have "snd (collector_loop available (it # its) st tbl) = tbl @ ((i, s) # rows)
       \<and> length ((i, s) # rows) = length (takeWhile write_ok (it # its))"
      using step tbl' True by simp
    then show ?thesis by blast
  qed
qed

lemma collector_loop_outcome:
  "(\<exists>st'. fst (collector_loop available its st tbl) = Running st') = list_all write_ok its"
  "fst (collector_loop available its st tbl) = Crashed DatabaseError \<longleftrightarrow> \<not> list_all write_ok its"
proof (induction its arbitrary: st tbl)
  case Nil
  { case 1 show ?case by simp }
  { case 2 show ?case by simp }
next
  case (Cons it its)
  { case 1 show ?case
    proof (cases "write_ok it")
      case False then show ?thesis by (simp add: collector_iteration_fails)
    next
      case True
      then obtain st' tbl' where step: "collector_iteration available it st tbl = Inr (st', tbl')"
        using collector_iteration_ok by blast
      then show ?thesis using True Cons.IH(1) [of st' tbl'] by simp
    qed }
  { case 2 show ?case
    proof (cases "write_ok it")
      case False then show ?thesis by (simp add: collector_iteration_fails)
    next
      case True
      then obtain st' tbl' where step: "collector_iteration available it st tbl = Inr (st', tbl')"
        using collector_iteration_ok by blast
      then show ?thesis using True Cons.IH(2) [of st' tbl'] by simp
    qed }
qed

lemma collector_loop_append:
  "collector_loop available pre st tbl = (Running st', tbl')
   \<Longrightarrow> collector_loop available (pre @ rest) st tbl = collector_loop available rest st' tbl'"
proof (induction pre arbitrary: st tbl)
  case Nil
  then show ?case by simp
next
  case (Cons it pre)
  then show ?case by (auto split: sum.splits)
qed

text \<open>
  Claim C7, as amended. A failing write is not caught: it ends the collector. The table is
  then exactly the one that the passes before the failing one have produced, one appended
  row for each of them; the row of the failing pass and the rows of all later passes are
  never written.
\<close>

theorem failed_write_ends_collector:
  assumes "list_all write_ok pre" and "\<not> write_ok it"
  shows "collector_loop available (pre @ it # post) st tbl
           = (Crashed DatabaseError, snd (collector_loop available pre st tbl))
       \<and> collector_thread available (pre @ it # post) tbl
           = (Crashed DatabaseError, snd (collector_thread available pre tbl))
       \<and> (\<exists>st' rows. collector_thread available pre tbl = (Running st', tbl @ rows)
             \<and> length rows = length pre)"
proof -
  have loop: "collector_loop available (pre @ it # post) s tbl
           = (Crashed DatabaseError, snd (collector_loop available pre s tbl))
        \<and> (\<exists>st' rows. collector_loop available pre s tbl = (Running st', tbl @ rows)
             \<and> length rows = length pre)" for s
  proof -
    obtain st' where "fst (collector_loop available pre s tbl) = Running st'"
      using collector_loop_outcome(1) [of available pre s tbl] assms(1) by blast
    moreover obtain rows where "snd (collector_loop available pre s tbl) = tbl @ rows"
      and len: "length rows = length (takeWhile write_ok pre)"
      using collector_loop_rows [of available pre s tbl] by blast
    ultimately have pre: "collector_loop available pre s tbl = (Running st', tbl @ rows)"
      by (simp add: prod_eq_iff)
    have "takeWhile write_ok pre = pre" using assms(1) by (simp add: list_all_iff)
    with len have "length rows = length pre" by simp
    moreover have "collector_loop available (pre @ it # post) s tbl
        = (Crashed DatabaseError, tbl @ rows)"
      using collector_loop_append [OF pre, of "it # post"] assms(2)
      by (simp add: collector_iteration_fails)
    ultimately show ?thesis using pre by simp
  qed
  show ?thesis using loop [of st] loop unfolding collector_thread_def by blast
qed

text \<open>
  Three passes of which the second cannot write: the table holds the row of the first
  pass, as after a run of that pass alone.
\<close>

theorem failed_write_ends_collector_witness:
  "collector_thread False
     [quiet_pass 3600, (quiet_pass 7200)\<lparr>write_ok := False\<rparr>, quiet_pass 10800] []
   = (Crashed DatabaseError,
      [(1, \<lparr>cpu_util = Some 0, brightness = Some 60, battery_percent = None,
             is_plugged = Some 0, power_W = Some (64 / 5), energy_Wh_cum = Some 0,
             timestamp = 3600\<rparr>)])
   \<and> snd (collector_thread False [quiet_pass 3600] [])
   = [(1, \<lparr>cpu_util = Some 0, brightness = Some 60, battery_percent = None,
             is_plugged = Some 0, power_W = Some (64 / 5), energy_Wh_cum = Some 0,
             timestamp = 3600\<rparr>)]"
  using failed_write_ends_collector [of "[quiet_pass 3600]"
          "(quiet_pass 7200)\<lparr>write_ok := False\<rparr>" False "[quiet_pass 10800]" _ "[]"]
  by (simp add: step_defs)

text \<open>
  Claim C7 as stated fails: when the write of the first pass fails, the second pass, whose
  write would go through, never runs, and the table stays empty.
\<close>

theorem failed_write_not_caught:
  "collector_thread False [(quiet_pass 3600)\<lparr>write_ok := False\<rparr>, quiet_pass 7200] []
     = (Crashed DatabaseError, [])
   \<and> write_ok (quiet_pass 7200)
   \<and> length (snd (collector_thread False [quiet_pass 7200] [])) = 1"
  by (simp add: step_defs)

text \<open>
  Claim C9. A pass in which the battery sensor reports no battery stores a row with
  \<open>is_plugged = 0\<close>, not null, and with a null \<open>battery_percent\<close>. A pass with a battery
  that is not plugged in stores \<open>is_plugged = 0\<close> too, so the column alone does not tell
  the two apart; only a plugged battery stores 1.
\<close>

theorem no_battery_row:
  assumes "write_ok it"
  shows "\<exists>st' i s. collector_iteration available it st tbl = Inr (st', tbl @ [(i, s)])
      \<and> (sensors_battery it = None \<longrightarrow> is_plugged s = Some 0 \<and> battery_percent s = None)
      \<and> (\<forall>b. sensors_battery it = Some b \<and> power_plugged b \<noteq> Some True
             \<longrightarrow> is_plugged s = Some 0 \<and> battery_percent s = Some (percent b))
      \<and> (\<forall>b. sensors_battery it = Some b \<and> power_plugged b = Some True
             \<longrightarrow> is_plugged s = Some 1 \<and> battery_percent s = Some (percent b))"
  using assms
  by (auto simp: collector_iteration_def Let_def insert_sample_def batt_percent_of_def
        is_plugged_of_def truthy_bool_def)

theorem no_battery_row_witness:
  "collector_iteration False (quiet_pass 3600)
     \<lparr>last_ts = None, last_batt_percent = None, energy_cum_Wh = 0\<rparr> []
   = Inr (\<lparr>last_ts = Some 3600, last_batt_percent = None, energy_cum_Wh = 0\<rparr>,
          [(1, \<lparr>cpu_util = Some 0, brightness = Some 60, battery_percent = None,
                 is_plugged = Some 0, power_W = Some (64 / 5), energy_Wh_cum = Some 0,
                 timestamp = 3600\<rparr>)])"
  using no_battery_row [of "quiet_pass 3600" False
          "\<lparr>last_ts = None, last_batt_percent = None, energy_cum_Wh = 0\<rparr>" "[]"]
  by (simp add: step_defs)

subsection \<open>Fetching\<close>

text \<open>
  Claim C8. For every mode other than "live", whatever the minutes, \<^verbatim>\<open>fetch_samples\<close>
  returns the whole sim table in the order of the row ids. For the mode "live" it returns
  the rows of the live table whose timestamp is at or after now minus the minutes, and
  only those, in ascending order of the timestamp. The one case in which the live query
  returns nothing is a window start that the calendar library cannot represent, where it
  raises OverflowError.
\<close>

theorem fetch_samples_modes:
  "(mode \<noteq> ''live'' \<longrightarrow>
      (\<forall>m. fetch_samples live sim now mode m = Inr (map snd (sort_key fst sim)))
      \<and> mset (sort_key fst sim) = mset sim \<and> sorted (map fst (sort_key fst sim)))
   \<and> (if timedelta_ok minutes \<and> datetime_ok (now - minutes * 60)
      then \<exists>rows. fetch_samples live sim now ''live'' minutes = Inr rows
          \<and> mset rows = mset (filter (\<lambda>s. now - minutes * 60 \<le> timestamp s) (map snd live))
          \<and> sorted (map timestamp rows)
      else fetch_samples live sim now ''live'' minutes = Inl OverflowError)"
proof (intro conjI impI)
  assume "mode \<noteq> ''live''"
  then show "\<forall>m. fetch_samples live sim now mode m = Inr (map snd (sort_key fst sim))"
    by (simp add: fetch_samples_def)
  show "mset (sort_key fst sim) = mset sim" by simp
  show "sorted (map fst (sort_key fst sim))" by simp
next
  show "if timedelta_ok minutes \<and> datetime_ok (now - minutes * 60)
      then \<exists>rows. fetch_samples live sim now ''live'' minutes = Inr rows
          \<and> mset rows = mset (filter (\<lambda>s. now - minutes * 60 \<le> timestamp s) (map snd live))
          \<and> sorted (map timestamp rows)
      else fetch_samples live sim now ''live'' minutes = Inl OverflowError"
    by (auto simp: fetch_samples_def Let_def filter_map comp_def)
qed

text \<open>
  A live table stored out of time order and a sim table stored out of id order; the
  window starts at 1000 - 600 = 400.
\<close>

theorem fetch_samples_modes_witness:
  "fetch_samples [(1, sample_at 700), (2, sample_at 300), (3, sample_at 500)]
     [(2, sample_at 20), (1, sample_at 10)] 1000 ''live'' 10
     = Inr [sample_at 500, sample_at 700]
   \<and> fetch_samples [(1, sample_at 700), (2, sample_at 300), (3, sample_at 500)]
     [(2, sample_at 20), (1, sample_at 10)] 1000 ''sim'' 10
     = Inr [sample_at 10, sample_at 20]
   \<and> fetch_samples [(1, sample_at 700), (2, sample_at 300), (3, sample_at 500)]
     [(2, sample_at 20), (1, sample_at 10)] 1000 ''sim'' 0
     = Inr [sample_at 10, sample_at 20]"
  using fetch_samples_modes [of "''sim''" "[(1, sample_at 700), (2, sample_at 300), (3, sample_at 500)]"
     "[(2, sample_at 20), (1, sample_at 10)]" 1000 10]
  by (simp add: fetch_samples_def timedelta_ok_def datetime_ok_def sample_at_def)

subsection \<open>Rounding and the summary\<close>

lemma round_half_even_nearest:
  "\<bar>x - of_int (round_half_even x)\<bar> \<le> 1 / 2
   \<and> (\<bar>x - of_int (round_half_even x)\<bar> = 1 / 2 \<longrightarrow> even (round_half_even x))"
proof -
  define f where "f = \<lfloor>x\<rfloor>"
  define d where "d = x - of_int f"
  have d: "0 \<le> d" "d < 1" unfolding d_def f_def by linarith+
  have r: "round_half_even x =
      (if d < 1 / 2 then f else if 1 / 2 < d then f + 1 else if even f then f else f + 1)"
    by (simp add: round_half_even_def Let_def f_def d_def)
  consider (lo) "d < 1 / 2" | (hi) "1 / 2 < d" | (tie) "d = 1 / 2" by linarith
  then show ?thesis
  proof cases
    case lo
    then have "round_half_even x = f" by (simp add: r)
    then have "x - of_int (round_half_even x) = d" by (simp add: d_def)
    then show ?thesis using lo d by simp
  next
    case hi
    then have "round_half_even x = f + 1" using r by simp
    then have "x - of_int (round_half_even x) = d - 1" by (simp add: d_def)
    then show ?thesis using hi d by simp
  next
    case tie
    show ?thesis
    proof (cases "even f")
      case True
      then have "round_half_even x = f" using r tie by simp
      moreover from this have "x - of_int (round_half_even x) = 1 / 2"
        using tie by (simp add: d_def)
      ultimately show ?thesis using True by simp
    next
      case False
      then have e: "round_half_even x = f + 1" using r tie by simp
      then have "x - of_int (round_half_even x) = - (1 / 2)"
        using tie by (simp add: d_def)
      then show ?thesis using False e by simp
    qed
  qed
qed

text \<open>
  The exponent is that of the power of two at or below the number, and \<open>fl x\<close> is a
  multiple of the spacing of the doubles there that is nearest to \<open>x\<close>, a tie going to
  the even multiple.
\<close>

lemma pow2_pos: "0 < pow2 e"
  by (simp add: pow2_def)

lemma exponent2_bounds:
  assumes "0 < x"
  shows "pow2 (exponent2 x) \<le> x \<and> x < pow2 (exponent2 x + 1)"
proof (cases "1 \<le> x")
  case True
  define n where "n = \<lfloor>x\<rfloor>"
  define k where "k = bitlen n"
  have n: "0 < n" "of_int n \<le> x" "x < of_int n + 1" using True unfolding n_def by linarith+
  from bitlen_bounds [OF n(1)] have b: "2 ^ nat (k - 1) \<le> n" "n + 1 \<le> 2 ^ nat k"
    unfolding k_def by simp_all
  have pos: "1 \<le> k" using n(1) by (simp add: k_def bitlen_alt_def)
  have e: "exponent2 x = k - 1" using True by (simp add: exponent2_def n_def k_def)
  have p1: "pow2 (exponent2 x) = 2 ^ nat (k - 1)" using pos by (simp add: e pow2_def)
  have p2: "pow2 (exponent2 x + 1) = 2 ^ nat k" using pos by (simp add: e pow2_def)
  have "(of_int (2 ^ nat (k - 1)) :: real) \<le> of_int n"
    using b(1) by (simp only: of_int_le_iff)
  then have r1: "(2::real) ^ nat (k - 1) \<le> of_int n" by simp
  have "(of_int (n + 1) :: real) \<le> of_int (2 ^ nat k)"
    using b(2) by (simp only: of_int_le_iff)
  then have r2: "of_int n + 1 \<le> (2::real) ^ nat k" by simp
  show ?thesis unfolding p1 p2 using r1 r2 n by linarith
next
  case False
  define m where "m = \<lceil>1 / x\<rceil>"
  define k where "k = bitlen (m - 1)"
  from False assms have y: "1 < 1 / x" by simp
  have m: "1 / x \<le> of_int m" "of_int m - 1 < 1 / x" unfolding m_def by linarith+
  have m1: "0 < m - 1" using y m(1) by linarith
  from bitlen_bounds [OF m1] have b: "2 ^ nat (k - 1) \<le> m - 1" "m \<le> 2 ^ nat k"
    unfolding k_def by simp_all
  have pos: "1 \<le> k" using m1 by (simp add: k_def bitlen_alt_def)
  have e: "exponent2 x = - k" using False by (simp add: exponent2_def m_def k_def)
  have p1: "pow2 (exponent2 x) = 1 / 2 ^ nat k" using pos by (simp add: e pow2_def)
  have p2: "pow2 (exponent2 x + 1) = 1 / 2 ^ nat (k - 1)"
  proof (cases "k = 1")
    case True
    then show ?thesis by (simp add: e pow2_def)
  next
    case False
    with pos have "\<not> 0 \<le> - k + 1" "nat (- (- k + 1)) = nat (k - 1)" by simp_all
    then show ?thesis by (simp add: e pow2_def)
  qed
  have "(of_int m :: real) \<le> of_int (2 ^ nat k)"
    using b(2) by (simp only: of_int_le_iff)
  then have r1: "of_int m \<le> (2::real) ^ nat k" by simp
  have "(of_int (2 ^ nat (k - 1)) :: real) \<le> of_int (m - 1)"
    using b(1) by (simp only: of_int_le_iff)
  then have r2: "(2::real) ^ nat (k - 1) \<le> of_int m - 1" by simp
  have "1 / x \<le> 2 ^ nat k" using m(1) r1 by linarith
  then have "1 \<le> 2 ^ nat k * x" using assms by (simp add: field_simps)
  then have lo: "1 / 2 ^ nat k \<le> x" by (simp add: field_simps)
  have "2 ^ nat (k - 1) < 1 / x" using m(2) r2 by linarith
  then have "2 ^ nat (k - 1) * x < 1" using assms by (simp add: field_simps)
  then have hi: "x < 1 / 2 ^ nat (k - 1)" by (simp add: field_simps)
  show ?thesis unfolding p1 p2 using lo hi ..
qed

lemma fl_nearest:
  assumes "x \<noteq> 0" and "q = pow2 (max (exponent2 \<bar>x\<bar>) (- 1022) - 52)"
  shows "\<exists>k::int. fl x = of_int k * q \<and> \<bar>x - fl x\<bar> \<le> q / 2
           \<and> (\<bar>x - fl x\<bar> = q / 2 \<longrightarrow> even k)"
proof -
  have q: "0 < q" unfolding assms(2) by (rule pow2_pos)
  define k where "k = round_half_even (x / q)"
  have f: "fl x = of_int k * q"
    using assms by (simp add: fl_def Let_def k_def)
  have d: "x - fl x = (x / q - of_int k) * q" using q by (simp add: f field_simps)
  have a: "\<bar>x - fl x\<bar> = \<bar>x / q - of_int k\<bar> * q" unfolding d using q by (simp add: abs_mult)
  from round_half_even_nearest [of "x / q"]
  have n: "\<bar>x / q - of_int k\<bar> \<le> 1 / 2" "\<bar>x / q - of_int k\<bar> = 1 / 2 \<longrightarrow> even k"
    unfolding k_def by simp_all
  have "\<bar>x / q - of_int k\<bar> * q \<le> (1 / 2) * q"
    using n(1) q by (intro mult_right_mono) simp_all
  then have le: "\<bar>x - fl x\<bar> \<le> q / 2" unfolding a by simp
  have "even k" if "\<bar>x - fl x\<bar> = q / 2"
  proof -
    from that have "\<bar>x / q - of_int k\<bar> * q = (1 / 2) * q" unfolding a by simp
    then have "\<bar>x / q - of_int k\<bar> = 1 / 2" using q by simp
    with n(2) show ?thesis by simp
  qed
  with le f show ?thesis by blast
qed

lemma round_py_nearest:
  "\<exists>k::int. round_py x n = fl (of_int k / 10 ^ n)
      \<and> \<bar>x * 10 ^ n - of_int k\<bar> \<le> 1 / 2
      \<and> (\<bar>x * 10 ^ n - of_int k\<bar> = 1 / 2 \<longrightarrow> even k)"
  using round_half_even_nearest [of "x * 10 ^ n"] unfolding round_py_def by blast

lemma summary_rows_nonempty:
  assumes "rows \<noteq> []"
  shows "summary_rows py_sum rows =
    \<lparr>energy_Wh = round_py (summary_energy_Wh rows) 2,
     avg_power_W = round_py (summary_avg_power py_sum rows) 2,
     avg_cpu = round_py (summary_avg_cpu py_sum rows) 1,
     co2_kg = round_py (summary_co2 rows) 3\<rparr>"
  using assms by (simp add: summary_rows_def)

lemma summary_energy_Wh_eq:
  assumes "rows \<noteq> []"
  shows "summary_energy_Wh rows =
     (if 1 < length rows
      then fl (read_or_zero (energy_Wh_cum (last rows)) - read_or_zero (energy_Wh_cum (hd rows)))
      else read_or_zero (energy_Wh_cum (hd rows)))"
  using assms by (cases rows; cases "tl rows") (auto simp: summary_energy_Wh_def Let_def last_map hd_map)

text \<open>
  Values of the double arithmetic, as the interpreter computes them: the doubles of some
  decimal literals, ties of \<^verbatim>\<open>round\<close> going to the even digit, and values that
  are not ties going to the nearest.
\<close>

lemma fl_zero: "fl 0 = 0"
  by (simp add: fl_def)

lemma fl_values:
  "fl (7 / 10) = 3152519739159347 / 4503599627370496"
  "fl (91 / 1000) = 3278620528725721 / 36028797018963968"
  "fl (64 / 5) = 3602879701896397 / 281474976710656"
  "fl (1 / 100) = 5764607523034235 / 576460752303423488"
  "fl (1 / 1000) = 1152921504606847 / 1152921504606846976"
  "fl (2 / 125) = 1152921504606847 / 72057594037927936"
  "fl (13 / 100) = 1170935903116329 / 9007199254740992"
  "fl (12347 / 1000) = 6950743074892939 / 562949953421312"
  "fl (247 / 20) = 6952431924753203 / 562949953421312"
  "fl 100 = 100" "fl 150 = 150" "fl 230 = 230" "fl 130 = 130"
  "fl (25 / 2) = 25 / 2" "fl (1 / 256) = 1 / 256"
  by code_simp+

lemma round_py_values:
  "round_py (1 / 8) 2 = 1080863910568919 / 9007199254740992"
  "round_py (3 / 8) 2 = 3422735716801577 / 9007199254740992"
  "round_py (5 / 2) 0 = 2"
  "round_py (7 / 2) 0 = 4"
  "round_py (- (5 / 2)) 0 = - 2"
  "round_py (6950743074892939 / 562949953421312) 2 = 6952431924753203 / 562949953421312"
  "round_py 130 2 = 130" "round_py (25 / 2) 2 = 25 / 2" "round_py (1 / 256) 2 = 0"
  by code_simp+

text \<open>
  Claim C4. When the window fetched is empty, the summary has all four fields zero, and
  the data listing is the empty sequence, not an error.
\<close>

theorem empty_window_summary:
  assumes "fetch_samples live sim now (request_mode mode) (request_minutes minutes) = Inr []"
  shows "api_summary py_sum live sim now mode minutes
           = Inr \<lparr>energy_Wh = 0, avg_power_W = 0, avg_cpu = 0, co2_kg = 0\<rparr>
       \<and> api_data live sim now mode minutes = Inr []"
  using assms by (simp add: api_summary_def api_data_def summary_rows_def data_rows_def)

text \<open>Both tables empty, no request parameter given.\<close>

theorem empty_window_summary_witness:
  "api_summary sum_running [] [] 0 None None
     = Inr \<lparr>energy_Wh = 0, avg_power_W = 0, avg_cpu = 0, co2_kg = 0\<rparr>
   \<and> api_data [] [] 0 None None = Inr []"
  using empty_window_summary [of "[]" "[]" 0 None None sum_running]
  by (simp add: fetch_samples_def request_mode_def request_minutes_def)

text \<open>
  Claim C5, as amended. For a window that is not empty, \<open>energy_Wh\<close> of the summary is,
  rounded to two decimals, the cumulative energy of the last sample minus that of the first
  when the window has more than one sample, and the cumulative energy of the single sample
  itself, not a zero difference, when it has one. A null reading counts as 0. The rounding
  is that of \<^verbatim>\<open>round(x, 2)\<close>: the result is the double of the multiple of 0.01 nearest
  to the value, a tie going to the even multiple.
\<close>

theorem summary_energy_delta:
  assumes "rows \<noteq> []"
    and "d = (if 1 < length rows
              then fl (read_or_zero (energy_Wh_cum (last rows))
                       - read_or_zero (energy_Wh_cum (hd rows)))
              else read_or_zero (energy_Wh_cum (hd rows)))"
  shows "energy_Wh (summary_rows py_sum rows) = round_py d 2
       \<and> (\<exists>k::int. energy_Wh (summary_rows py_sum rows) = fl (of_int k / 10 ^ 2)
             \<and> \<bar>d * 10 ^ 2 - of_int k\<bar> \<le> 1 / 2
             \<and> (\<bar>d * 10 ^ 2 - of_int k\<bar> = 1 / 2 \<longrightarrow> even k))"
proof -
  have e: "energy_Wh (summary_rows py_sum rows) = round_py d 2"
    using assms by (simp add: summary_rows_nonempty summary_energy_Wh_eq)
  with round_py_nearest [of d 2] show ?thesis by simp
qed

lemma window_values:
  "fl (17293822569102705 / 1152921504606846976) = 1080863910568919 / 72057594037927936"
  "round_py (1080863910568919 / 72057594037927936) 2 = 5764607523034235 / 576460752303423488"
  by code_simp+

text \<open>
  A single sample at 12.5 Wh gives 12.5, not zero; the samples at 0.001 and 0.016 Wh give
  the double 0.01, as the program does: their difference is a double just below 0.015.
\<close>

theorem summary_energy_delta_witness:
  "energy_Wh (summary_rows sum_running [(sample_at 0)\<lparr>energy_Wh_cum := Some (25 / 2)\<rparr>])
     = 25 / 2
   \<and> energy_Wh (summary_rows sum_running
        [(sample_at 0)\<lparr>energy_Wh_cum := Some (1 / 1000)\<rparr>,
         (sample_at 2)\<lparr>energy_Wh_cum := Some (16 / 1000)\<rparr>])
     = fl (1 / 100)"
  using
    summary_energy_delta [OF _ refl,
      of "[(sample_at 0)\<lparr>energy_Wh_cum := Some (25 / 2)\<rparr>]" sum_running]
    summary_energy_delta [OF _ refl,
      of "[(sample_at 0)\<lparr>energy_Wh_cum := Some (1 / 1000)\<rparr>,
           (sample_at 2)\<lparr>energy_Wh_cum := Some (16 / 1000)\<rparr>]" sum_running]
  by (simp add: read_or_zero_def sample_at_def fl_values round_py_values window_values)

text \<open>
  Claim C5 as stated fails: the field is rounded for display. A window of the single
  sample at 1/256 Wh, a double, has a summary with \<open>energy_Wh = 0\<close>, not 1/256.
\<close>

theorem summary_energy_rounded_away:
  "energy_Wh (summary_rows sum_running [(sample_at 0)\<lparr>energy_Wh_cum := Some (1 / 256)\<rparr>]) = 0
   \<and> read_or_zero (energy_Wh_cum ((sample_at 0)\<lparr>energy_Wh_cum := Some (1 / 256)\<rparr>)) = 1 / 256
   \<and> energy_Wh (summary_rows sum_running [(sample_at 0)\<lparr>energy_Wh_cum := Some (1 / 256)\<rparr>])
       \<noteq> 1 / 256"
  by (simp add: summary_rows_def summary_energy_Wh_def read_or_zero_def sample_at_def
        fl_values round_py_values)

text \<open>
  The carbon dioxide of a single sample at 5 Wh is shown as 0.003, as the program shows it:
  the product of the doubles 0.005 and 0.7 is a double just below 0.0035.
\<close>

lemma five_Wh_values:
  "fl 5 = 5"
  "fl (1 / 200) = 5764607523034235 / 1152921504606846976"
  "fl (18173039004871895925237601244545 / 5192296858534827628530496329220096)
     = 1008806316530991 / 288230376151711744"
  "round_py (1008806316530991 / 288230376151711744) 3
     = 3458764513820541 / 1152921504606846976"
  "fl (3 / 1000) = 3458764513820541 / 1152921504606846976"
  by code_simp+

lemma co2_of_five_Wh:
  "co2_kg (summary_rows py_sum [(sample_at 0)\<lparr>energy_Wh_cum := Some 5\<rparr>]) = fl (3 / 1000)"
proof -
  have e: "summary_energy_Wh [(sample_at 0)\<lparr>energy_Wh_cum := Some 5\<rparr>] = 5"
    by (simp add: summary_energy_Wh_def read_or_zero_def five_Wh_values)
  have c: "summary_co2 [(sample_at 0)\<lparr>energy_Wh_cum := Some 5\<rparr>]
      = 1008806316530991 / 288230376151711744"
    unfolding summary_co2_def e
    by (simp add: CO2_PER_KWH_KG_def fl_values five_Wh_values)
  show ?thesis by (simp add: summary_rows_def c five_Wh_values)
qed

lemma example_values:
  "fl (3691398547864603909072008677163 / 40564819207303340847894502572032)
     = 3278620528725721 / 36028797018963968"
  "round_py (3278620528725721 / 36028797018963968) 3 = 3278620528725721 / 36028797018963968"
  by code_simp+

text \<open>
  Claim C6. For a window whose cumulative energies are 100, 150 and 230 Wh, with the factor
  of 0.7 kg per kWh, the summary reports \<open>energy_Wh = 230 - 100 = 130\<close> and \<open>co2_kg\<close> the
  double 0.091. The four fields of every summary are the locals rounded by
  \<^verbatim>\<open>round\<close> to 2, 2, 1 and 3 decimals, and that rounding gives the double of the
  nearest decimal of that many digits, a tie going to the even last digit.
\<close>

theorem summary_example:
  "energy_Wh (summary_rows py_sum
      [r1\<lparr>energy_Wh_cum := Some 100\<rparr>, r2\<lparr>energy_Wh_cum := Some 150\<rparr>,
       r3\<lparr>energy_Wh_cum := Some 230\<rparr>]) = 130
   \<and> co2_kg (summary_rows py_sum
      [r1\<lparr>energy_Wh_cum := Some 100\<rparr>, r2\<lparr>energy_Wh_cum := Some 150\<rparr>,
       r3\<lparr>energy_Wh_cum := Some 230\<rparr>]) = fl (91 / 1000)
   \<and> CO2_PER_KWH_KG = 7 / 10
   \<and> (rows \<noteq> [] \<longrightarrow> summary_rows py_sum rows =
        \<lparr>energy_Wh = round_py (summary_energy_Wh rows) 2,
         avg_power_W = round_py (summary_avg_power py_sum rows) 2,
         avg_cpu = round_py (summary_avg_cpu py_sum rows) 1,
         co2_kg = round_py (summary_co2 rows) 3\<rparr>)
   \<and> (\<forall>x n. \<exists>k::int. round_py x n = fl (of_int k / 10 ^ n)
          \<and> \<bar>x * 10 ^ n - of_int k\<bar> \<le> 1 / 2
          \<and> (\<bar>x * 10 ^ n - of_int k\<bar> = 1 / 2 \<longrightarrow> even k))"
proof (intro conjI impI allI)
  let ?rows = "[r1\<lparr>energy_Wh_cum := Some 100\<rparr>, r2\<lparr>energy_Wh_cum := Some 150\<rparr>,
       r3\<lparr>energy_Wh_cum := Some 230\<rparr>]"
  have e: "summary_energy_Wh ?rows = 130"
    by (simp add: summary_energy_Wh_def read_or_zero_def fl_values)
  have c: "summary_co2 ?rows = 3278620528725721 / 36028797018963968"
    unfolding summary_co2_def e
    by (simp add: CO2_PER_KWH_KG_def fl_values example_values)
  show "energy_Wh (summary_rows py_sum ?rows) = 130"
    by (simp add: summary_rows_def e round_py_values)
  show "co2_kg (summary_rows py_sum ?rows) = fl (91 / 1000)"
    by (simp add: summary_rows_def c example_values fl_values)
  show "CO2_PER_KWH_KG = 7 / 10" by (simp add: CO2_PER_KWH_KG_def)
next
  assume "rows \<noteq> []"
  then show "summary_rows py_sum rows =
        \<lparr>energy_Wh = round_py (summary_energy_Wh rows) 2,
         avg_power_W = round_py (summary_avg_power py_sum rows) 2,
         avg_cpu = round_py (summary_avg_cpu py_sum rows) 1,
         co2_kg = round_py (summary_co2 rows) 3\<rparr>"
    by (rule summary_rows_nonempty)
next
  fix x n
  show "\<exists>k::int. round_py x n = fl (of_int k / 10 ^ n)
          \<and> \<bar>x * 10 ^ n - of_int k\<bar> \<le> 1 / 2
          \<and> (\<bar>x * 10 ^ n - of_int k\<bar> = 1 / 2 \<longrightarrow> even k)"
    by (rule round_py_nearest)
qed

text \<open>
  The same window with loads and powers, under the running sum: the mean power 12.347 is
  shown as 12.35 and the mean load 18.58 as 18.6.
\<close>

lemma example_record:
  "summary_rows sum_running
     [\<lparr>cpu_util = Some 10, brightness = None, battery_percent = None, is_plugged = None,
       power_W = Some (123 / 10), energy_Wh_cum = Some 100, timestamp = 0\<rparr>,
      \<lparr>cpu_util = Some 20, brightness = None, battery_percent = None, is_plugged = None,
       power_W = Some (124 / 10), energy_Wh_cum = Some 150, timestamp = 2\<rparr>,
      \<lparr>cpu_util = Some (2575 / 100), brightness = None, battery_percent = None,
       is_plugged = None, power_W = Some (12341 / 1000), energy_Wh_cum = Some 230,
       timestamp = 4\<rparr>]
   = \<lparr>energy_Wh = 130, avg_power_W = 6952431924753203 / 562949953421312,
      avg_cpu = 2617717283409101 / 140737488355328,
      co2_kg = 3278620528725721 / 36028797018963968\<rparr>"
  by code_simp

theorem summary_example_witness:
  "summary_rows sum_running
     [\<lparr>cpu_util = Some 10, brightness = None, battery_percent = None, is_plugged = None,
       power_W = Some (123 / 10), energy_Wh_cum = Some 100, timestamp = 0\<rparr>,
      \<lparr>cpu_util = Some 20, brightness = None, battery_percent = None, is_plugged = None,
       power_W = Some (124 / 10), energy_Wh_cum = Some 150, timestamp = 2\<rparr>,
      \<lparr>cpu_util = Some (2575 / 100), brightness = None, battery_percent = None,
       is_plugged = None, power_W = Some (12341 / 1000), energy_Wh_cum = Some 230,
       timestamp = 4\<rparr>]
   = \<lparr>energy_Wh = 130, avg_power_W = fl (1235 / 100), avg_cpu = fl (186 / 10),
      co2_kg = fl (91 / 1000)\<rparr>
   \<and> fl (91 / 1000) = 3278620528725721 / 36028797018963968
   \<and> fl (1235 / 100) = 6952431924753203 / 562949953421312
   \<and> fl (186 / 10) = 2617717283409101 / 140737488355328"
proof -
  have v: "fl (1235 / 100) = 6952431924753203 / 562949953421312"
    "fl (186 / 10) = 2617717283409101 / 140737488355328"
    by code_simp+
  note summary_example [of sum_running
      "\<lparr>cpu_util = Some 10, brightness = None, battery_percent = None, is_plugged = None,
        power_W = Some (123 / 10), energy_Wh_cum = Some 100, timestamp = 0\<rparr>"
      "\<lparr>cpu_util = Some 20, brightness = None, battery_percent = None, is_plugged = None,
        power_W = Some (124 / 10), energy_Wh_cum = Some 150, timestamp = 2\<rparr>"
      "\<lparr>cpu_util = Some (2575 / 100), brightness = None, battery_percent = None,
        is_plugged = None, power_W = Some (12341 / 1000), energy_Wh_cum = Some 230,
        timestamp = 4\<rparr>"]
  then show ?thesis
    by (simp only: example_record v fl_values)
qed

text \<open>
  A run of two quiet passes an hour apart, then a restart with one more pass: the second
  run starts its cumulative energy from zero again.
\<close>

lemma restart_table:
  "snd (collector_thread False [quiet_pass 7300]
      (snd (collector_thread False [quiet_pass 3600, quiet_pass 7200] [])))
   = [(1, \<lparr>cpu_util = Some 0, brightness = Some 60, battery_percent = None,
          is_plugged = Some 0, power_W = Some (64 / 5),
          energy_Wh_cum = Some 0, timestamp = 3600\<rparr>),
      (2, \<lparr>cpu_util = Some 0, brightness = Some 60, battery_percent = None,
          is_plugged = Some 0, power_W = Some (64 / 5),
          energy_Wh_cum = Some (64 / 5), timestamp = 7200\<rparr>),
      (3, \<lparr>cpu_util = Some 0, brightness = Some 60, battery_percent = None,
          is_plugged = Some 0, power_W = Some (64 / 5),
          energy_Wh_cum = Some 0, timestamp = 7300\<rparr>)]"
  by (simp add: step_defs)

lemma restart_fetch:
  "fetch_samples (snd (collector_thread False [quiet_pass 7300]
      (snd (collector_thread False [quiet_pass 3600, quiet_pass 7200] []))))
     [] 7400 ''live'' 4
   = Inr [\<lparr>cpu_util = Some 0, brightness = Some 60, battery_percent = None,
          is_plugged = Some 0, power_W = Some (64 / 5),
          energy_Wh_cum = Some (64 / 5), timestamp = 7200\<rparr>,
         \<lparr>cpu_util = Some 0, brightness = Some 60, battery_percent = None,
          is_plugged = Some 0, power_W = Some (64 / 5),
          energy_Wh_cum = Some 0, timestamp = 7300\<rparr>]"
  unfolding restart_table
  by (simp add: fetch_samples_def timedelta_ok_def datetime_ok_def Let_def)

lemma restart_values:
  "fl (- (3602879701896397 / 281474976710656)) = - (3602879701896397 / 281474976710656)"
  "round_py (- (3602879701896397 / 281474976710656)) 2
     = - (3602879701896397 / 281474976710656)"
  "fl (- (3602879701896397 / 281474976710656000)) = - (7378697629483821 / 576460752303423488)"
  "fl (- (23261489926236027414808077424887 / 2596148429267413814265248164610048))
     = - (2582544170319337 / 288230376151711744)"
  "round_py (- (2582544170319337 / 288230376151711744)) 3
     = - (5188146770730811 / 576460752303423488)"
  by code_simp+

lemma restart_window_summary:
  "energy_Wh (summary_rows py_sum
        [\<lparr>cpu_util = Some 0, brightness = Some 60, battery_percent = None,
          is_plugged = Some 0, power_W = Some (64 / 5),
          energy_Wh_cum = Some (64 / 5), timestamp = 7200\<rparr>,
         \<lparr>cpu_util = Some 0, brightness = Some 60, battery_percent = None,
          is_plugged = Some 0, power_W = Some (64 / 5),
          energy_Wh_cum = Some 0, timestamp = 7300\<rparr>])
     = - (3602879701896397 / 281474976710656)
   \<and> co2_kg (summary_rows py_sum
        [\<lparr>cpu_util = Some 0, brightness = Some 60, battery_percent = None,
          is_plugged = Some 0, power_W = Some (64 / 5),
          energy_Wh_cum = Some (64 / 5), timestamp = 7200\<rparr>,
         \<lparr>cpu_util = Some 0, brightness = Some 60, battery_percent = None,
          is_plugged = Some 0, power_W = Some (64 / 5),
          energy_Wh_cum = Some 0, timestamp = 7300\<rparr>])
     = - (5188146770730811 / 576460752303423488)"
proof -
  let ?rows = "[\<lparr>cpu_util = Some 0, brightness = Some 60, battery_percent = None,
          is_plugged = Some 0, power_W = Some (64 / 5),
          energy_Wh_cum = Some (64 / 5), timestamp = 7200\<rparr>,
         \<lparr>cpu_util = Some 0, brightness = Some 60, battery_percent = None,
          is_plugged = Some 0, power_W = Some (64 / 5),
          energy_Wh_cum = Some 0, timestamp = 7300\<rparr>]"
  have e: "summary_energy_Wh ?rows = - (3602879701896397 / 281474976710656)"
    by (simp add: summary_energy_Wh_def read_or_zero_def fl_zero fl_values restart_values)
  have c: "summary_co2 ?rows = - (2582544170319337 / 288230376151711744)"
    unfolding summary_co2_def e
    by (simp add: CO2_PER_KWH_KG_def fl_values restart_values)
  show ?thesis
    by (simp add: summary_rows_def e c restart_values)
qed

text \<open>
  Claim C10. The summary's \<open>energy_Wh\<close> and \<open>co2_kg\<close> can be strictly negative: there is a
  window of more than one sample whose last cumulative energy is strictly below its first
  and whose summary has both fields below zero. Such a window arises from the program
  itself: the live query over the last sample of one run of the collector and the first
  sample of the next run.
\<close>

theorem summary_negative_after_restart:
  "(\<exists>rows a b. 1 < length rows \<and> energy_Wh_cum (hd rows) = Some a
        \<and> energy_Wh_cum (last rows) = Some b \<and> b < a
        \<and> energy_Wh (summary_rows py_sum rows) < 0 \<and> co2_kg (summary_rows py_sum rows) < 0)
   \<and> (\<exists>run1 run2 now minutes s.
        api_summary py_sum
          (snd (collector_thread False run2 (snd (collector_thread False run1 []))))
          [] now (Some ''live'') (Some minutes) = Inr s
        \<and> energy_Wh s < 0 \<and> co2_kg s < 0)"
proof
  let ?rows = "[\<lparr>cpu_util = Some 0, brightness = Some 60, battery_percent = None,
          is_plugged = Some 0, power_W = Some (64 / 5),
          energy_Wh_cum = Some (64 / 5), timestamp = 7200\<rparr>,
         \<lparr>cpu_util = Some 0, brightness = Some 60, battery_percent = None,
          is_plugged = Some 0, power_W = Some (64 / 5),
          energy_Wh_cum = Some 0, timestamp = 7300\<rparr>]"
  have neg: "energy_Wh (summary_rows py_sum ?rows) < 0 \<and> co2_kg (summary_rows py_sum ?rows) < 0"
    using restart_window_summary [of py_sum] by simp
  then have "1 < length ?rows \<and> energy_Wh_cum (hd ?rows) = Some (64 / 5)
        \<and> energy_Wh_cum (last ?rows) = Some 0 \<and> (0::real) < 64 / 5
        \<and> energy_Wh (summary_rows py_sum ?rows) < 0 \<and> co2_kg (summary_rows py_sum ?rows) < 0"
    by simp
  then show "\<exists>rows a b. 1 < length rows \<and> energy_Wh_cum (hd rows) = Some a
        \<and> energy_Wh_cum (last rows) = Some b \<and> b < a
        \<and> energy_Wh (summary_rows py_sum rows) < 0 \<and> co2_kg (summary_rows py_sum rows) < 0"
    by blast
  have "api_summary py_sum (snd (collector_thread False [quiet_pass 7300]
            (snd (collector_thread False [quiet_pass 3600, quiet_pass 7200] []))))
          [] 7400 (Some ''live'') (Some 4) = Inr (summary_rows py_sum ?rows)"
    by (simp add: api_summary_def request_mode_def request_minutes_def restart_fetch)
  with neg show "\<exists>run1 run2 now minutes s.
        api_summary py_sum
          (snd (collector_thread False run2 (snd (collector_thread False run1 []))))
          [] now (Some ''live'') (Some minutes) = Inr s
        \<and> energy_Wh s < 0 \<and> co2_kg s < 0"
    by blast
qed

end
